theory Spec2Isabelle
  imports Main
begin

section \<open>Values shared by the components\<close>

text \<open>A JavaScript string is truthy when it is not empty.\<close>

definition truthy :: "string \<Rightarrow> bool" where
  "truthy s = (s \<noteq> [])"

text \<open>
  The toast indicators of \<^verbatim>\<open>app/actionCreators/indicator\<close>: a call is recorded with
  its message.
\<close>

datatype Indicator =
    AddLoadingMessage string
  | AddErrorMessage string
  | ClearIndicators

text \<open>
  The value with which a request promise rejects.  Handlers read
  \<^verbatim>\<open>err.responseJSON?.detail\<close> and \<^verbatim>\<open>response?.responseJSON?.non_field_errors\<close>;
  \<open>None\<close> is a missing (\<^verbatim>\<open>undefined\<close> or \<^verbatim>\<open>null\<close>) field, and for
  \<open>non_field_errors\<close> also a value that is not an array.
\<close>

record ResponseJSON =
  detail :: "string option"
  non_field_errors :: "string list option"

record RequestError =
  responseJSON :: "ResponseJSON option"

section \<open>Events chart: legend selection\<close>

text \<open>
  The chart component keeps, in its state, which series the legend shows
  (\<^verbatim>\<open>seriesSelection: Record<string, boolean>\<close>) and a \<^verbatim>\<open>forceUpdate\<close> flag.
  Of its props only \<^verbatim>\<open>disableableSeries?: string[]\<close> is read by the legend handler;
  an absent prop is \<open>None\<close> and is defaulted to the empty array by the destructuring
  \<^verbatim>\<open>const {disableableSeries = []} = this.props\<close>.
\<close>

record ChartProps =
  disableableSeries :: "string list option"

record ChartState =
  seriesSelection :: "string \<rightharpoonup> bool"
  forceUpdate :: bool

text \<open>
  The legend change event carries \<^verbatim>\<open>selected\<close>, an object from series name to flag.
  It is an association list in key order; \<^verbatim>\<open>Object.keys(selected)\<close> is the list of
  its keys and \<^verbatim>\<open>selected[key]\<close> the lookup.
\<close>

type_synonym legendChange = "(string \<times> bool) list"

definition disableable :: "ChartProps \<Rightarrow> string \<Rightarrow> bool" where
  "disableable props key =
     (let series = (case disableableSeries props of None \<Rightarrow> [] | Some ds \<Rightarrow> ds)
      in key \<in> set [''Releases'', ''Other''] \<or> key \<in> set series)"

text \<open>The reducer: \<^verbatim>\<open>state[key] = disableable ? selected[key] : true; return state\<close>.\<close>

definition legendReducer ::
  "ChartProps \<Rightarrow> legendChange \<Rightarrow> (string \<rightharpoonup> bool) \<Rightarrow> string \<Rightarrow> (string \<rightharpoonup> bool)" where
  "legendReducer props selected state key =
     state(key := (if disableable props key then map_of selected key else Some True))"

definition legendSeriesSelection :: "ChartProps \<Rightarrow> legendChange \<Rightarrow> (string \<rightharpoonup> bool)" where
  "legendSeriesSelection props selected =
     foldl (legendReducer props selected) Map.empty (map fst selected)"

text \<open>
  \<^verbatim>\<open>handleLegendSelectChanged\<close> sets the new selection together with
  \<^verbatim>\<open>forceUpdate: true\<close>; the callback of that \<^verbatim>\<open>setState\<close> then resets the flag.
  The first component of the result is the state after the first update, the second
  the state after the callback.
\<close>

definition handleLegendSelectChanged ::
  "ChartProps \<Rightarrow> ChartState \<Rightarrow> legendChange \<Rightarrow> ChartState \<times> ChartState" where
  "handleLegendSelectChanged props st selected =
     (let st1 = st\<lparr>seriesSelection := legendSeriesSelection props selected, forceUpdate := True\<rparr>
      in (st1, st1\<lparr>forceUpdate := False\<rparr>))"

section \<open>Issue list: saving a search\<close>


record Organization =
  slug :: string
  features :: "string list option"















section \<open>Performance: team key transactions\<close>

subsection \<open>The API client\<close>

text \<open>
  A request as \<^verbatim>\<open>api.requestPromise(url, {method, query, data})\<close> receives it.  Query
  and body are lists of named values; a value is a string, an array of strings, or
  \<^verbatim>\<open>undefined\<close>.
\<close>

datatype QueryValue = Undefined | Str string | Strs "string list"

record Request =
  req_method :: string
  req_url :: string
  req_query :: "(string \<times> QueryValue) list"
  req_data :: "(string \<times> QueryValue) list"

text \<open>
  The client and the server behind it are an input of the model: a function from the
  requests issued so far, the current one last, to the outcome of the current one,
  \<open>Inl\<close> for a rejected promise.  The actions keep a log of the requests they issue
  and of the indicator calls they make.
\<close>

type_synonym 'r Client = "Request list \<Rightarrow> RequestError + 'r"

record World =
  requests :: "Request list"
  indicators :: "Indicator list"

subsection \<open>Fetching the key transactions of teams\<close>

type_synonym TransactionNames = "string set"
type_synonym KeyTransactionPerProject = "string \<rightharpoonup> TransactionNames"
type_synonym TeamKeyTransactions = "string \<rightharpoonup> KeyTransactionPerProject"

text \<open>One element of the response data, \<^verbatim>\<open>{team, keyed: [{project_id, transaction}]}\<close>.\<close>

record Keyed =
  project_id :: string
  transaction :: string

record TeamKeyed =
  team :: string
  keyed :: "Keyed list"

text \<open>
  Of the \<^verbatim>\<open>xhr\<close> only \<^verbatim>\<open>getResponseHeader('Link')\<close> is read; \<open>None\<close> is a missing
  header.  With \<^verbatim>\<open>includeAllArgs\<close> the promise resolves to the data and the
  \<^verbatim>\<open>xhr\<close>, which may be missing.
\<close>

record Xhr =
  Link :: "string option"

type_synonym PageResponse = "TeamKeyed list \<times> Xhr option"

text \<open>
  \<^verbatim>\<open>parseLinkHeader\<close> (\<^verbatim>\<open>app/utils/parseLinkHeader\<close>) is a parameter of the model.
  Of its result the loop reads \<^verbatim>\<open>next?.results\<close> and \<^verbatim>\<open>next?.cursor\<close>.
\<close>

record LinkRelation =
  results :: "bool option"
  cursor :: "string option"

record PaginationObject =
  next_relation :: "LinkRelation option"

text \<open>
  The reducer over \<^verbatim>\<open>keyed\<close>: create the set of the project if it is missing, then add
  the transaction.
\<close>

definition addKeyed :: "KeyTransactionPerProject \<Rightarrow> Keyed \<Rightarrow> KeyTransactionPerProject" where
  "addKeyed kts k =
     (let kts1 = (if kts (project_id k) = None then kts(project_id k \<mapsto> {}) else kts)
      in kts1(project_id k \<mapsto>
           insert (transaction k) (case kts1 (project_id k) of None \<Rightarrow> {} | Some names \<Rightarrow> names)))"

definition keyTransactionsForTeam :: "Keyed list \<Rightarrow> KeyTransactionPerProject" where
  "keyTransactionsForTeam ks = foldl addKeyed Map.empty ks"

text \<open>The body of \<^verbatim>\<open>data.forEach\<close>: \<^verbatim>\<open>teamKeyTransactions.set(team, keyTransactionsForTeam)\<close>.\<close>

definition setTeam :: "TeamKeyTransactions \<Rightarrow> TeamKeyed \<Rightarrow> TeamKeyTransactions" where
  "setTeam tkt d = tkt(team d \<mapsto> keyTransactionsForTeam (keyed d))"

definition addPage :: "TeamKeyTransactions \<Rightarrow> TeamKeyed list \<Rightarrow> TeamKeyTransactions" where
  "addPage tkt data = foldl setTeam tkt data"

text \<open>The request of one page.\<close>

definition pageRequest :: "string \<Rightarrow> QueryValue \<Rightarrow> string option \<Rightarrow> Request" where
  "pageRequest url teams cursor' =
     \<lparr>req_method = ''GET'', req_url = url,
      req_query = [(''cursor'', case cursor' of None \<Rightarrow> Undefined | Some c \<Rightarrow> Str c),
                   (''team'', teams)],
      req_data = []\<rparr>"

text \<open>
  What the loop reads from a resolved response: \<^verbatim>\<open>hasMore\<close> and the next cursor.
  \<^verbatim>\<open>pageLinks\<close> is \<^verbatim>\<open>xhr && xhr.getResponseHeader('Link')\<close>, tested for truthiness.
\<close>

definition pageLinks :: "Xhr option \<Rightarrow> string option" where
  "pageLinks xhr = (case xhr of None \<Rightarrow> None | Some x \<Rightarrow> Link x)"

definition hasMore :: "(string \<Rightarrow> PaginationObject) \<Rightarrow> Xhr option \<Rightarrow> bool" where
  "hasMore parseLinkHeader xhr =
     (case pageLinks xhr of
        None \<Rightarrow> False
      | Some links \<Rightarrow>
          if truthy links
          then (case next_relation (parseLinkHeader links) of
                  None \<Rightarrow> False
                | Some rel \<Rightarrow> (case results rel of None \<Rightarrow> False | Some b \<Rightarrow> b))
          else False)"

definition nextCursor :: "(string \<Rightarrow> PaginationObject) \<Rightarrow> Xhr option \<Rightarrow> string option \<Rightarrow> string option" where
  "nextCursor parseLinkHeader xhr cursor' =
     (case pageLinks xhr of
        None \<Rightarrow> cursor'
      | Some links \<Rightarrow>
          if truthy links
          then (case next_relation (parseLinkHeader links) of
                  None \<Rightarrow> None
                | Some rel \<Rightarrow> cursor rel)
          else cursor')"

text \<open>The message of the \<^verbatim>\<open>catch\<close> block: \<^verbatim>\<open>err.responseJSON?.detail ?? t(...)\<close>.\<close>

definition fetchErrorMessage :: "(string \<Rightarrow> string) \<Rightarrow> RequestError \<Rightarrow> string" where
  "fetchErrorMessage t err =
     (case responseJSON err of
        None \<Rightarrow> t ''Error fetching team key transactions''
      | Some json \<Rightarrow>
          (case detail json of
             None \<Rightarrow> t ''Error fetching team key transactions''
           | Some d \<Rightarrow> d))"

text \<open>
  The \<^verbatim>\<open>while (hasMore)\<close> loop, entered with \<^verbatim>\<open>hasMore\<close> true.  Its state is the
  cursor, the map built so far and the log.  Nothing bounds the number of pages, so
  the loop is a partial function: \<open>None\<close> is a loop that never ends.  The result is
  the log together with the rejection (\<open>Inl\<close>) or the map (\<open>Inr\<close>).
\<close>

partial_function (option) fetchLoop ::
  "(string \<Rightarrow> string) \<Rightarrow> (string \<Rightarrow> PaginationObject) \<Rightarrow> PageResponse Client \<Rightarrow> string \<Rightarrow>
   QueryValue \<Rightarrow> string option \<times> TeamKeyTransactions \<times> World \<Rightarrow>
   (World \<times> (RequestError + TeamKeyTransactions)) option" where
  "fetchLoop t parseLinkHeader api url teams s =
     (let cursor' = fst s; teamKeyTransactions = fst (snd s); w = snd (snd s);
          w1 = w\<lparr>requests := requests w @ [pageRequest url teams cursor']\<rparr>
      in case api (requests w1) of
           Inl err \<Rightarrow>
             Some (w1\<lparr>indicators := indicators w1 @ [AddErrorMessage (fetchErrorMessage t err)]\<rparr>,
                   Inl err)
         | Inr response \<Rightarrow>
             (let teamKeyTransactions1 = addPage teamKeyTransactions (fst response)
              in if hasMore parseLinkHeader (snd response)
                 then fetchLoop t parseLinkHeader api url teams
                        (nextCursor parseLinkHeader (snd response) cursor', teamKeyTransactions1, w1)
                 else Some (w1, Inr teamKeyTransactions1)))"

definition fetchTeamKeyTransactions ::
  "(string \<Rightarrow> string) \<Rightarrow> (string \<Rightarrow> PaginationObject) \<Rightarrow> PageResponse Client \<Rightarrow> string \<Rightarrow>
   QueryValue \<Rightarrow> World \<Rightarrow> (World \<times> (RequestError + TeamKeyTransactions)) option" where
  "fetchTeamKeyTransactions t parseLinkHeader api orgSlug teams w =
     fetchLoop t parseLinkHeader api (''/organizations/'' @ orgSlug @ ''/key-transactions-list/'')
       teams (None, Map.empty, w)"

subsection \<open>Toggling a key transaction\<close>

text \<open>\<^verbatim>\<open>String(id)\<close> of a project id, a whole number: its decimal digits.\<close>

fun digits :: "nat \<Rightarrow> string" where
  "digits n = (if n < 10 then [''0123456789'' ! n]
               else digits (n div 10) @ [''0123456789'' ! (n mod 10)])"

definition String :: "int \<Rightarrow> string" where
  "String i = (if i < 0 then ''-'' @ digits (nat (- i)) else digits (nat i))"

definition toggleErrorMessage :: "(string \<Rightarrow> string) \<Rightarrow> RequestError \<Rightarrow> string" where
  "toggleErrorMessage t response =
     (case responseJSON response of
        None \<Rightarrow> t ''Unable to update key transaction''
      | Some json \<Rightarrow>
          (case non_field_errors json of
             Some (e # es) \<Rightarrow> if truthy e then e else t ''Unable to update key transaction''
           | _ \<Rightarrow> t ''Unable to update key transaction''))"

definition toggleRequest :: "bool \<Rightarrow> string \<Rightarrow> int list \<Rightarrow> string \<Rightarrow> string list option \<Rightarrow> Request" where
  "toggleRequest isKeyTransaction orgId projects transactionName teamIds =
     \<lparr>req_method = (if isKeyTransaction then ''DELETE'' else ''POST''),
      req_url = ''/organizations/'' @ orgId @ ''/key-transactions/'',
      req_query = [(''project'', Strs (map String projects))],
      req_data = [(''transaction'', Str transactionName),
                  (''team'', case teamIds of None \<Rightarrow> Undefined | Some ids \<Rightarrow> Strs ids)]\<rparr>"

text \<open>
  \<^verbatim>\<open>toggleKeyTransaction\<close> returns the promise of its one request; the result is the log
  and the outcome of that promise.  The loading message ends with the ellipsis
  character U+2026, here its three bytes in UTF-8.
\<close>

definition toggleKeyTransaction ::
  "(string \<Rightarrow> string) \<Rightarrow> unit Client \<Rightarrow> bool \<Rightarrow> string \<Rightarrow> int list \<Rightarrow> string \<Rightarrow>
   string list option \<Rightarrow> World \<Rightarrow> World \<times> (RequestError + unit)" where
  "toggleKeyTransaction t api isKeyTransaction orgId projects transactionName teamIds w =
     (let w1 = w\<lparr>indicators := indicators w @
                  [AddLoadingMessage (t (''Saving changes'' @ [char_of (0xE2 :: nat),
                     char_of (0x80 :: nat), char_of (0xA6 :: nat)]))]\<rparr>;
          w2 = w1\<lparr>requests := requests w1 @
                  [toggleRequest isKeyTransaction orgId projects transactionName teamIds]\<rparr>
      in case api (requests w2) of
           Inr u \<Rightarrow> (w2\<lparr>indicators := indicators w2 @ [ClearIndicators]\<rparr>, Inr u)
         | Inl response \<Rightarrow>
             (w2\<lparr>indicators := indicators w2 @ [AddErrorMessage (toggleErrorMessage t response)]\<rparr>,
              Inl response))"

subsection \<open>The provider component\<close>

datatype Action = Key | Unkey

datatype SelectionType = My_teams | Id string

record TeamSelection =
  action :: Action
  project :: int
  transactionName :: string
  selection_type :: SelectionType

record Team =
  team_id :: string
  isMember :: bool

record ProviderProps =
  organization :: Organization
  teams :: "Team list"
  selectedTeams :: "string list"


record ProviderState =
  keyFetchID :: "nat option"
  isLoading :: bool
  error :: "string option"
  teamKeyTransactions :: nat







section \<open>Debug file repositories: the HTTP repository modal\<close>

text \<open>
  \<^verbatim>\<open>InitialData\<close> is the optional prop of the modal; \<^verbatim>\<open>Data\<close> is the form state.
  Optional fields are options (\<open>None\<close> is \<^verbatim>\<open>undefined\<close>); the optional
  \<^verbatim>\<open>password\<close> object of the prop is its \<^verbatim>\<open>hidden-secret\<close> flag.
\<close>

record InitialData =
  initial_name :: string
  initial_url :: string
  initial_layout_type :: string
  initial_layout_casing :: string
  initial_username :: "string option"
  initial_password :: "bool option"

record Data =
  name :: "string option"
  url :: "string option"
  username :: "string option"
  password :: "string option"
  layout_type :: string
  layout_casing :: string

datatype SubmitPassword = HiddenSecret bool | Password string

record SubmitData =
  submit_id :: string
  submit_name :: "string option"
  submit_url :: "string option"
  submit_layout_type :: string
  submit_layout_casing :: string
  submit_username :: "string option"
  submit_password :: "SubmitPassword option"

text \<open>
  \<^verbatim>\<open>formUnchanged\<close> compares two objects with \<^verbatim>\<open>===\<close>, which on objects is identity,
  not equality of the fields.  An object is therefore a pair of its address and its
  fields, every object literal takes a fresh address from a counter, and \<^verbatim>\<open>===\<close>
  compares addresses.
\<close>

type_synonym DataObject = "nat \<times> Data"

text \<open>
  The state of one mounted modal: the slot of its \<^verbatim>\<open>useState\<close> hook (empty before the
  first render) and the next free address.
\<close>

record HttpInstance =
  hook :: "DataObject option"
  next_ref :: nat

definition isFormInvalid :: "DataObject \<Rightarrow> bool" where
  "isFormInvalid data =
     ((case name (snd data) of None \<Rightarrow> True | Some n \<Rightarrow> \<not> truthy n)
      \<or> (case url (snd data) of None \<Rightarrow> True | Some u \<Rightarrow> \<not> truthy u))"

definition formUnchanged :: "DataObject \<Rightarrow> DataObject \<Rightarrow> bool" where
  "formUnchanged data initialData = (fst data = fst initialData)"

definition handleSubmit_http :: "string \<Rightarrow> DataObject \<Rightarrow> SubmitData" where
  "handleSubmit_http uniqueId data =
     (let validData = snd data
      in \<lparr>submit_id = uniqueId,
          submit_name = name validData,
          submit_url = url validData,
          submit_layout_type = layout_type validData,
          submit_layout_casing = layout_casing validData,
          submit_username = username validData,
          submit_password =
            (case password validData of
               None \<Rightarrow> Some (HiddenSecret True)
             | Some p \<Rightarrow> if \<not> truthy p then None else Some (Password p))\<rparr>)"

text \<open>
  What one render of \<^verbatim>\<open>Http\<close> computes: the \<^verbatim>\<open>initialData\<close> object built by this
  render, the \<^verbatim>\<open>data\<close> returned by \<^verbatim>\<open>useState(initialData)\<close>, and the
  \<^verbatim>\<open>disabled\<close> attribute of the button.
\<close>

record HttpView =
  view_initialData :: DataObject
  view_data :: DataObject
  save_disabled :: bool

definition Http :: "InitialData option \<Rightarrow> HttpInstance \<Rightarrow> HttpView \<times> HttpInstance" where
  "Http props inst =
     (let initialData =
            (next_ref inst,
             \<lparr>name = map_option initial_name props,
              url = map_option initial_url props,
              username = (case props of None \<Rightarrow> None | Some i \<Rightarrow> initial_username i),
              password = (case props of None \<Rightarrow> Some []
                          | Some i \<Rightarrow> (case initial_password i of
                                         Some _ \<Rightarrow> None | None \<Rightarrow> Some [])),
              layout_type = (case props of None \<Rightarrow> ''native'' | Some i \<Rightarrow> initial_layout_type i),
              layout_casing = (case props of None \<Rightarrow> ''default''
                               | Some i \<Rightarrow> initial_layout_casing i)\<rparr>);
          data = (case hook inst of None \<Rightarrow> initialData | Some d \<Rightarrow> d)
      in (\<lparr>view_initialData = initialData,
           view_data = data,
           save_disabled = (isFormInvalid data \<or> formUnchanged data initialData)\<rparr>,
          \<lparr>hook = Some data, next_ref = Suc (next_ref inst)\<rparr>))"

text \<open>
  The edits the rendered form offers.  Each handler calls \<^verbatim>\<open>setData\<close> with a new object
  \<^verbatim>\<open>{...data, field: value}\<close> built from the \<^verbatim>\<open>data\<close> of the last render.
\<close>

datatype HttpEvent =
    ChangeName string
  | ChangeUrl string
  | ChangeUsername string
  | ChangePassword string
  | ClearPassword
  | ChangeLayoutType string
  | ChangeLayoutCasing string

fun edit :: "HttpEvent \<Rightarrow> Data \<Rightarrow> Data" where
  "edit (ChangeName v) d = d\<lparr>name := Some v\<rparr>"
| "edit (ChangeUrl v) d = d\<lparr>url := Some v\<rparr>"
| "edit (ChangeUsername v) d = d\<lparr>username := Some v\<rparr>"
| "edit (ChangePassword v) d = d\<lparr>password := Some v\<rparr>"
| "edit ClearPassword d = d\<lparr>password := Some []\<rparr>"
| "edit (ChangeLayoutType v) d = d\<lparr>layout_type := v\<rparr>"
| "edit (ChangeLayoutCasing v) d = d\<lparr>layout_casing := v\<rparr>"

definition setData :: "HttpView \<Rightarrow> HttpEvent \<Rightarrow> HttpInstance \<Rightarrow> HttpInstance" where
  "setData view e inst =
     \<lparr>hook = Some (next_ref inst, edit e (snd (view_data view))),
      next_ref = Suc (next_ref inst)\<rparr>"

text \<open>
  Mounting renders once.  After that the component renders again after every edit, and
  also with no edit at all, when its parent renders again; such a render calls \<^verbatim>\<open>Http\<close>
  on the state as it is.
\<close>

definition mount :: "InitialData option \<Rightarrow> HttpView \<times> HttpInstance" where
  "mount props = Http props \<lparr>hook = None, next_ref = 0\<rparr>"

datatype HttpStep = Edit HttpEvent | Rerender

fun interact :: "InitialData option \<Rightarrow> HttpView \<times> HttpInstance \<Rightarrow> HttpStep list \<Rightarrow>
    HttpView \<times> HttpInstance" where
  "interact props vi [] = vi"
| "interact props vi (Edit e # es) =
     interact props (Http props (setData (fst vi) e (snd vi))) es"
| "interact props vi (Rerender # es) = interact props (Http props (snd vi)) es"

section \<open>Global selection header: the debounced project search\<close>

text \<open>
  The component state, of which the search reads and writes \<^verbatim>\<open>searchQuery\<close>, and the
  options object passed on to \<^verbatim>\<open>onSearch\<close>.
\<close>

record HeaderState =
  header_projects :: "int list option"
  header_environments :: "string list option"
  searchQuery :: string

record SearchOptions =
  append' :: bool

text \<open>
  The function wrapped by \<^verbatim>\<open>debounce\<close> in \<^verbatim>\<open>searchDispatcher\<close>: the arguments of the
  call of \<^verbatim>\<open>onSearch\<close> it makes, and the state after its \<^verbatim>\<open>setState\<close>.
\<close>

definition searchDispatcher ::
  "HeaderState \<Rightarrow> string \<Rightarrow> SearchOptions \<Rightarrow> (string \<times> SearchOptions) \<times> HeaderState" where
  "searchDispatcher st query options =
     (let options1 = (if searchQuery st = query then options\<lparr>append' := True\<rparr> else options)
      in ((query, options1), st\<lparr>searchQuery := query\<rparr>))"

text \<open>
  \<^verbatim>\<open>debounce(f, 200)\<close> is the function of the lodash library, with its default options
  (no call on the leading edge, one on the trailing edge).  Its documented behaviour is
  modelled with time in milliseconds and timers that fire on time: a call stores its
  arguments and its time, replacing what was stored; \<^verbatim>\<open>f\<close> is called with the stored
  arguments once 200 ms have passed since the last call.  \<open>pending\<close> is what is stored.

  \<open>searchRun\<close> plays a list of \<^verbatim>\<open>onFilterChange\<close> events, each the time and the text
  of the input; the handler calls the debounced function with that text and a new
  options object \<^verbatim>\<open>{append: false}\<close>.  The result lists the dispatches (time, query
  and options of each call of \<^verbatim>\<open>onSearch\<close>) and gives the final state.
\<close>

definition wait :: nat where
  "wait = 200"

type_synonym Pending = "((string \<times> SearchOptions) \<times> nat) option"

type_synonym Dispatch = "nat \<times> string \<times> SearchOptions"

fun searchRun :: "HeaderState \<Rightarrow> Pending \<Rightarrow> (nat \<times> string) list \<Rightarrow> Dispatch list \<times> HeaderState" where
  "searchRun st None [] = ([], st)"
| "searchRun st (Some ((q0, options), called)) [] =
     (let r = searchDispatcher st q0 options
      in ([(called + wait, fst r)], snd r))"
| "searchRun st None ((now, q) # events) =
     searchRun st (Some ((q, \<lparr>append' = False\<rparr>), now)) events"
| "searchRun st (Some ((q0, options), called)) ((now, q) # events) =
     (if called + wait \<le> now
      then (let r = searchDispatcher st q0 options;
                rest = searchRun (snd r) (Some ((q, \<lparr>append' = False\<rparr>), now)) events
            in ((called + wait, fst r) # fst rest, snd rest))
      else searchRun st (Some ((q, \<lparr>append' = False\<rparr>), now)) events)"

section \<open>Notions for the statements, and sample inputs\<close>

subsection \<open>Describing a list of dispatches\<close>

text \<open>
  Two notions used to state what a list of dispatches looks like: \<open>spaced lo ds\<close> says
  that the first dispatch is not before \<open>lo\<close> and each later one at least \<open>wait\<close> after
  the one before it; \<open>chained prev ds\<close> says that each dispatch has \<open>append\<close> set exactly
  when its query is the query of the dispatch before it, \<open>prev\<close> for the first.
\<close>

fun spaced :: "nat \<Rightarrow> Dispatch list \<Rightarrow> bool" where
  "spaced lo [] = True"
| "spaced lo (d # ds) = (lo \<le> fst d \<and> spaced (fst d + wait) ds)"

fun chained :: "string \<Rightarrow> Dispatch list \<Rightarrow> bool" where
  "chained prev [] = True"
| "chained prev (d # ds) =
     (append' (snd (snd d)) = (fst (snd d) = prev) \<and> chained (fst (snd d)) ds)"

subsection \<open>Describing a run of the fetch loop\<close>

text \<open>
  To state what the loop does over several pages, a run is described from outside by
  the list of responses the server gives.  \<open>cursors\<close> lists the cursor of each request
  when the first is sent with cursor \<open>c\<close> and the responses are \<open>pages\<close>;
  \<open>cursorAfter\<close> is the cursor the loop holds after them.  \<open>serves\<close> says that the
  client, asked one request after the other with these cursors on top of the earlier
  requests \<open>h\<close>, resolves with exactly these responses.
\<close>

fun cursors :: "(string \<Rightarrow> PaginationObject) \<Rightarrow> string option \<Rightarrow> PageResponse list \<Rightarrow> string option list" where
  "cursors parseLinkHeader c [] = []"
| "cursors parseLinkHeader c (p # ps) =
     c # cursors parseLinkHeader (nextCursor parseLinkHeader (snd p) c) ps"

fun cursorAfter :: "(string \<Rightarrow> PaginationObject) \<Rightarrow> string option \<Rightarrow> PageResponse list \<Rightarrow> string option" where
  "cursorAfter parseLinkHeader c [] = c"
| "cursorAfter parseLinkHeader c (p # ps) =
     cursorAfter parseLinkHeader (nextCursor parseLinkHeader (snd p) c) ps"

fun serves :: "PageResponse Client \<Rightarrow> Request list \<Rightarrow> string \<Rightarrow> QueryValue \<Rightarrow>
    (string \<Rightarrow> PaginationObject) \<Rightarrow> string option \<Rightarrow> PageResponse list \<Rightarrow> bool" where
  "serves api h u tms parseLinkHeader c [] = True"
| "serves api h u tms parseLinkHeader c (p # ps) =
     (api (h @ [pageRequest u tms c]) = Inr p
      \<and> serves api (h @ [pageRequest u tms c]) u tms parseLinkHeader
            (nextCursor parseLinkHeader (snd p) c) ps)"

subsection \<open>Sample inputs\<close>

text \<open>
  Concrete inputs on which the statements below are evaluated: two pages of key
  transactions, a link parser that knows the two \<open>Link\<close> headers of these pages, a
  server that answers the first request with the first page and the request with the
  cursor of that page with the second, and a server that rejects the second request.
\<close>

definition samplePage1 :: PageResponse where
  "samplePage1 =
     ([\<lparr>team = ''1'', keyed = [\<lparr>project_id = ''10'', transaction = ''/checkout''\<rparr>]\<rparr>],
      Some \<lparr>Link = Some ''next; results=true; cursor=0:100:0''\<rparr>)"

definition samplePage2 :: PageResponse where
  "samplePage2 =
     ([\<lparr>team = ''1'', keyed = [\<lparr>project_id = ''20'', transaction = ''/login''\<rparr>]\<rparr>,
       \<lparr>team = ''2'', keyed = []\<rparr>],
      Some \<lparr>Link = Some ''next; results=false; cursor=0:200:0''\<rparr>)"

definition sampleParseLinkHeader :: "string \<Rightarrow> PaginationObject" where
  "sampleParseLinkHeader links =
     (if links = ''next; results=true; cursor=0:100:0''
      then \<lparr>next_relation = Some \<lparr>results = Some True, cursor = Some ''0:100:0''\<rparr>\<rparr>
      else if links = ''next; results=false; cursor=0:200:0''
      then \<lparr>next_relation = Some \<lparr>results = Some False, cursor = Some ''0:200:0''\<rparr>\<rparr>
      else \<lparr>next_relation = None\<rparr>)"

definition sampleNotFound :: RequestError where
  "sampleNotFound = \<lparr>responseJSON = Some \<lparr>detail = Some ''Not found'', non_field_errors = None\<rparr>\<rparr>"

definition sampleApi :: "PageResponse Client" where
  "sampleApi h =
     (case map_of (req_query (last h)) ''cursor'' of
        Some Undefined \<Rightarrow> Inr samplePage1
      | Some (Str c) \<Rightarrow> if c = ''0:100:0'' then Inr samplePage2 else Inl sampleNotFound
      | _ \<Rightarrow> Inl sampleNotFound)"

definition sampleFailingApi :: "PageResponse Client" where
  "sampleFailingApi h =
     (case map_of (req_query (last h)) ''cursor'' of
        Some Undefined \<Rightarrow> Inr samplePage1
      | _ \<Rightarrow> Inl sampleNotFound)"

definition sampleWorld :: World where
  "sampleWorld = \<lparr>requests = [], indicators = []\<rparr>"





text \<open>An existing repository on which the modal is opened.\<close>

definition sampleRepository :: InitialData where
  "sampleRepository =
     \<lparr>initial_name = ''symbols'', initial_url = ''https://example.com/symbols/'',
      initial_layout_type = ''native'', initial_layout_casing = ''default'',
      initial_username = None, initial_password = None\<rparr>"



section \<open>Properties\<close>

subsection \<open>Legend selection\<close>

lemma legendReducer_same:
  "legendReducer props selected s k k =
     (if disableable props k then map_of selected k else Some True)"
  by (simp add: legendReducer_def)

lemma legendReducer_other:
  "key \<noteq> k \<Longrightarrow> legendReducer props selected s k key = s key"
  by (simp add: legendReducer_def)

lemma foldl_legend_outside:
  "key \<notin> set ks \<Longrightarrow> foldl (legendReducer props selected) s ks key = s key"
  by (induction ks arbitrary: s) (simp_all add: legendReducer_other)

lemma foldl_legend_inside:
  "key \<in> set ks \<Longrightarrow>
   foldl (legendReducer props selected) s ks key =
     (if disableable props key then map_of selected key else Some True)"
proof (induction ks arbitrary: s)
  case Nil
  then show ?case by simp
next
  case (Cons k ks)
  show ?case
  proof (cases "key \<in> set ks")
    case True
    then show ?thesis using Cons.IH by simp
  next
    case False
    with Cons.prems have "key = k" by simp
    with False show ?thesis by (simp add: foldl_legend_outside legendReducer_same)
  qed
qed

text \<open>
  Claim C7. After any legend change event, the new \<open>seriesSelection\<close> has exactly the
  series names of the event as keys; a name that is \<open>Releases\<close>, \<open>Other\<close> or listed in the
  \<open>disableableSeries\<close> prop keeps the flag the user chose, and every other name is set to
  true, whatever the user chose.  The same selection is still in place after the
  \<open>forceUpdate\<close> flag has been reset.
\<close>

theorem legend_selection_only_disableable:
  "seriesSelection (fst (handleLegendSelectChanged props st selected)) key =
     (if key \<in> fst ` set selected
      then (if key = ''Releases'' \<or> key = ''Other''
               \<or> key \<in> set (case disableableSeries props of None \<Rightarrow> [] | Some ds \<Rightarrow> ds)
            then map_of selected key else Some True)
      else None)
   \<and> seriesSelection (snd (handleLegendSelectChanged props st selected))
       = seriesSelection (fst (handleLegendSelectChanged props st selected))"
proof (cases "key \<in> fst ` set selected")
  case True
  then have "key \<in> set (map fst selected)" by simp
  then have "legendSeriesSelection props selected key =
      (if disableable props key then map_of selected key else Some True)"
    unfolding legendSeriesSelection_def by (rule foldl_legend_inside)
  with True show ?thesis
    by (simp add: handleLegendSelectChanged_def Let_def disableable_def)
next
  case False
  then have "key \<notin> set (map fst selected)" by simp
  then have "legendSeriesSelection props selected key = None"
    unfolding legendSeriesSelection_def by (simp add: foldl_legend_outside)
  with False show ?thesis
    by (simp add: handleLegendSelectChanged_def Let_def)
qed

theorem legend_selection_only_disableable_witness:
  "seriesSelection (fst (handleLegendSelectChanged \<lparr>disableableSeries = Some [''p95()'']\<rparr>
       \<lparr>seriesSelection = Map.empty, forceUpdate = False\<rparr>
       [(''count()'', False), (''Releases'', False), (''p95()'', False)])) ''count()'' = Some True
   \<and> seriesSelection (fst (handleLegendSelectChanged \<lparr>disableableSeries = Some [''p95()'']\<rparr>
       \<lparr>seriesSelection = Map.empty, forceUpdate = False\<rparr>
       [(''count()'', False), (''Releases'', False), (''p95()'', False)])) ''Releases'' = Some False
   \<and> seriesSelection (fst (handleLegendSelectChanged \<lparr>disableableSeries = Some [''p95()'']\<rparr>
       \<lparr>seriesSelection = Map.empty, forceUpdate = False\<rparr>
       [(''count()'', False), (''Releases'', False), (''p95()'', False)])) ''p95()'' = Some False"
  using legend_selection_only_disableable
          [of "\<lparr>disableableSeries = Some [''p95()'']\<rparr>"
              "\<lparr>seriesSelection = Map.empty, forceUpdate = False\<rparr>"
              "[(''count()'', False), (''Releases'', False), (''p95()'', False)]" "''count()''"]
        legend_selection_only_disableable
          [of "\<lparr>disableableSeries = Some [''p95()'']\<rparr>"
              "\<lparr>seriesSelection = Map.empty, forceUpdate = False\<rparr>"
              "[(''count()'', False), (''Releases'', False), (''p95()'', False)]" "''Releases''"]
        legend_selection_only_disableable
          [of "\<lparr>disableableSeries = Some [''p95()'']\<rparr>"
              "\<lparr>seriesSelection = Map.empty, forceUpdate = False\<rparr>"
              "[(''count()'', False), (''Releases'', False), (''p95()'', False)]" "''p95()''"]
  by simp

subsection \<open>Saved search sort option\<close>











subsection \<open>The Save changes button of the HTTP repository modal\<close>

text \<open>
  What the code does.  A render on a stored state object that is older than the next free
  address (every render but the first) builds a newer initial object, so the identity
  test fails and the button is disabled exactly when the form is invalid.
\<close>

lemma Http_stored:
  "hook inst = Some d \<Longrightarrow> fst d < next_ref inst \<Longrightarrow>
   save_disabled (fst (Http props inst)) = isFormInvalid d
   \<and> view_data (fst (Http props inst)) = d
   \<and> hook (snd (Http props inst)) = Some d
   \<and> fst d < next_ref (snd (Http props inst))"
  by (simp add: Http_def Let_def formUnchanged_def)

lemma mount_stored:
  "hook (snd (mount props)) = Some (view_data (fst (mount props)))
   \<and> fst (view_data (fst (mount props))) < next_ref (snd (mount props))"
  by (simp add: mount_def Http_def Let_def)

lemma mount_disabled: "save_disabled (fst (mount props))"
  by (simp add: mount_def Http_def Let_def formUnchanged_def)

lemma interact_stored:
  "hook (snd vi) = Some (view_data (fst vi)) \<Longrightarrow>
   fst (view_data (fst vi)) < next_ref (snd vi) \<Longrightarrow>
   es \<noteq> [] \<Longrightarrow>
   save_disabled (fst (interact props vi es))
     = isFormInvalid (view_data (fst (interact props vi es)))"
proof (induction props vi es rule: interact.induct)
  case (1 props vi)
  then show ?case by simp
next
  case (2 props vi e es)
  let ?inst = "setData (fst vi) e (snd vi)"
  let ?d = "(next_ref (snd vi), edit e (snd (view_data (fst vi))))"
  have h: "hook ?inst = Some ?d" and r: "fst ?d < next_ref ?inst"
    by (simp_all add: setData_def)
  note st = Http_stored [OF h r, of props]
  show ?case
  proof (cases "es = []")
    case True
    with st show ?thesis by simp
  next
    case False
    from st have "hook (snd (Http props ?inst)) = Some (view_data (fst (Http props ?inst)))"
      and "fst (view_data (fst (Http props ?inst))) < next_ref (snd (Http props ?inst))"
      by simp_all
    from "2.IH" [OF this False] show ?thesis by simp
  qed
next
  case (3 props vi es)
  note st = Http_stored [OF "3.prems"(1,2), of props]
  show ?case
  proof (cases "es = []")
    case True
    with st show ?thesis by simp
  next
    case False
    from st have "hook (snd (Http props (snd vi))) = Some (view_data (fst (Http props (snd vi))))"
      and "fst (view_data (fst (Http props (snd vi)))) < next_ref (snd (Http props (snd vi)))"
      by simp_all
    from "3.IH" [OF this False] show ?thesis by simp
  qed
qed

lemma save_disabled_first_render_only:
  "save_disabled (fst (interact props (mount props) es))
     = (isFormInvalid (view_data (fst (interact props (mount props) es))) \<or> es = [])"
proof (cases "es = []")
  case True
  then show ?thesis by (simp add: mount_disabled)
next
  case False
  with interact_stored [of "mount props" es props] mount_stored [of props]
  show ?thesis by simp
qed

lemma isFormInvalid_iff:
  "isFormInvalid data
     = (name (snd data) = None \<or> name (snd data) = Some [] \<or>
        url (snd data) = None \<or> url (snd data) = Some [])"
  by (auto simp: isFormInvalid_def truthy_def split: option.splits)

lemma submit_password_cases:
  "submit_password (handleSubmit_http uid data)
     = (case password (snd data) of
          None \<Rightarrow> Some (HiddenSecret True)
        | Some p \<Rightarrow> if p = [] then None else Some (Password p))"
  by (simp add: handleSubmit_http_def Let_def truthy_def split: option.splits)

text \<open>
  Claim C5 says that the button is disabled exactly when the form is invalid or the form
  data is unchanged from its initial values.  The code departs from that.  The modal is
  opened on an existing repository, where the button starts disabled.  When the name is
  changed and changed back, and likewise when the component merely renders again with no
  edit, the fields of the form data equal those of the initial data and the form is
  valid, yet the button is enabled: \<open>formUnchanged\<close> compares the state object with an
  initial object that every render builds anew.
\<close>

theorem save_button_enabled_on_unchanged_data:
  "save_disabled (fst (mount (Some sampleRepository)))
   \<and> snd (view_data (fst (interact (Some sampleRepository) (mount (Some sampleRepository))
            [Edit (ChangeName ''symbols2''), Edit (ChangeName ''symbols'')])))
       = snd (view_initialData (fst (interact (Some sampleRepository)
            (mount (Some sampleRepository))
            [Edit (ChangeName ''symbols2''), Edit (ChangeName ''symbols'')])))
   \<and> \<not> isFormInvalid (view_data (fst (interact (Some sampleRepository)
            (mount (Some sampleRepository))
            [Edit (ChangeName ''symbols2''), Edit (ChangeName ''symbols'')])))
   \<and> \<not> save_disabled (fst (interact (Some sampleRepository) (mount (Some sampleRepository))
            [Edit (ChangeName ''symbols2''), Edit (ChangeName ''symbols'')]))
   \<and> snd (view_data (fst (interact (Some sampleRepository) (mount (Some sampleRepository))
            [Rerender])))
       = snd (view_initialData (fst (interact (Some sampleRepository)
            (mount (Some sampleRepository)) [Rerender])))
   \<and> \<not> isFormInvalid (view_data (fst (interact (Some sampleRepository)
            (mount (Some sampleRepository)) [Rerender])))
   \<and> \<not> save_disabled (fst (interact (Some sampleRepository) (mount (Some sampleRepository))
            [Rerender]))"
  by (simp add: sampleRepository_def mount_def Http_def setData_def Let_def isFormInvalid_def
        truthy_def formUnchanged_def)

subsection \<open>Runs of the fetch loop\<close>

lemma fetchLoop_fail:
  "api (requests w @ [pageRequest u tms c]) = Inl err \<Longrightarrow>
   fetchLoop t parse api u tms (c, m, w) =
     Some (w\<lparr>requests := requests w @ [pageRequest u tms c],
              indicators := indicators w @ [AddErrorMessage (fetchErrorMessage t err)]\<rparr>, Inl err)"
  by (subst fetchLoop.simps) (simp add: Let_def)

lemma fetchLoop_stop:
  "api (requests w @ [pageRequest u tms c]) = Inr p \<Longrightarrow> \<not> hasMore parse (snd p) \<Longrightarrow>
   fetchLoop t parse api u tms (c, m, w) =
     Some (w\<lparr>requests := requests w @ [pageRequest u tms c]\<rparr>, Inr (addPage m (fst p)))"
  by (subst fetchLoop.simps) (simp add: Let_def)

lemma fetchLoop_continue:
  "api (requests w @ [pageRequest u tms c]) = Inr p \<Longrightarrow> hasMore parse (snd p) \<Longrightarrow>
   fetchLoop t parse api u tms (c, m, w) =
     fetchLoop t parse api u tms
       (nextCursor parse (snd p) c, addPage m (fst p),
        w\<lparr>requests := requests w @ [pageRequest u tms c]\<rparr>)"
  by (subst fetchLoop.simps) (simp add: Let_def)

lemma fetchLoop_run:
  "pages \<noteq> [] \<Longrightarrow> serves api (requests w) u tms parse c pages \<Longrightarrow>
   \<forall>p \<in> set (butlast pages). hasMore parse (snd p) \<Longrightarrow>
   \<not> hasMore parse (snd (last pages)) \<Longrightarrow>
   fetchLoop t parse api u tms (c, m, w) =
     Some (w\<lparr>requests := requests w @ map (pageRequest u tms) (cursors parse c pages)\<rparr>,
           Inr (foldl addPage m (map fst pages)))"
proof (induction pages arbitrary: c m w)
  case Nil
  then show ?case by simp
next
  case (Cons p ps)
  from Cons.prems(2) have served: "api (requests w @ [pageRequest u tms c]) = Inr p"
    and rest: "serves api (requests w @ [pageRequest u tms c]) u tms parse
                 (nextCursor parse (snd p) c) ps"
    by simp_all
  show ?case
  proof (cases "ps = []")
    case True
    with Cons.prems(4) have "\<not> hasMore parse (snd p)" by simp
    with served True show ?thesis by (simp add: fetchLoop_stop)
  next
    case False
    with Cons.prems(3) have more: "hasMore parse (snd p)" by simp
    let ?w1 = "w\<lparr>requests := requests w @ [pageRequest u tms c]\<rparr>"
    have "fetchLoop t parse api u tms (nextCursor parse (snd p) c, addPage m (fst p), ?w1) =
       Some (?w1\<lparr>requests := requests ?w1 @
                 map (pageRequest u tms) (cursors parse (nextCursor parse (snd p) c) ps)\<rparr>,
             Inr (foldl addPage (addPage m (fst p)) (map fst ps)))"
      using False rest Cons.prems(3,4) by (intro Cons.IH) simp_all
    with served more show ?thesis by (simp add: fetchLoop_continue)
  qed
qed

lemma fetchLoop_run_fail:
  "serves api (requests w) u tms parse c pages \<Longrightarrow>
   \<forall>p \<in> set pages. hasMore parse (snd p) \<Longrightarrow>
   api (requests w @ map (pageRequest u tms) (cursors parse c pages)
          @ [pageRequest u tms (cursorAfter parse c pages)]) = Inl err \<Longrightarrow>
   fetchLoop t parse api u tms (c, m, w) =
     Some (w\<lparr>requests := requests w @ map (pageRequest u tms) (cursors parse c pages)
                  @ [pageRequest u tms (cursorAfter parse c pages)],
              indicators := indicators w @ [AddErrorMessage (fetchErrorMessage t err)]\<rparr>, Inl err)"
proof (induction pages arbitrary: c m w)
  case Nil
  then show ?case by (simp add: fetchLoop_fail)
next
  case (Cons p ps)
  from Cons.prems(1) have served: "api (requests w @ [pageRequest u tms c]) = Inr p"
    and rest: "serves api (requests w @ [pageRequest u tms c]) u tms parse
                 (nextCursor parse (snd p) c) ps"
    by simp_all
  from Cons.prems(2) have more: "hasMore parse (snd p)" by simp
  let ?w1 = "w\<lparr>requests := requests w @ [pageRequest u tms c]\<rparr>"
  let ?c1 = "nextCursor parse (snd p) c"
  have "fetchLoop t parse api u tms (?c1, addPage m (fst p), ?w1) =
     Some (?w1\<lparr>requests := requests ?w1 @ map (pageRequest u tms) (cursors parse ?c1 ps)
                  @ [pageRequest u tms (cursorAfter parse ?c1 ps)],
              indicators := indicators ?w1 @ [AddErrorMessage (fetchErrorMessage t err)]\<rparr>, Inl err)"
    using rest Cons.prems(2,3) by (intro Cons.IH) simp_all
  with served more show ?case by (simp add: fetchLoop_continue)
qed

subsection \<open>What a page does to the entry of a team\<close>

lemma transactions_Cons:
  "{transaction ka | ka. ka \<in> set (k # ks) \<and> project_id ka = p} =
     (if project_id k = p then {transaction k} else {})
     \<union> {transaction ka | ka. ka \<in> set ks \<and> project_id ka = p}"
  by auto

lemma transactions_empty:
  "p \<notin> project_id ` set ks \<Longrightarrow> {transaction ka | ka. ka \<in> set ks \<and> project_id ka = p} = {}"
  by auto

lemma addKeyed_lookup:
  "addKeyed m k p =
     (if project_id k = p
      then Some (insert (transaction k) (case m p of None \<Rightarrow> {} | Some names \<Rightarrow> names))
      else m p)"
  by (auto simp: addKeyed_def Let_def split: option.splits)

lemma foldl_addKeyed:
  "foldl addKeyed m ks p =
     (if p \<in> project_id ` set ks
      then Some ((case m p of None \<Rightarrow> {} | Some names \<Rightarrow> names)
                 \<union> {transaction k | k. k \<in> set ks \<and> project_id k = p})
      else m p)"
proof (induction ks arbitrary: m)
  case Nil
  then show ?case by simp
next
  case (Cons k ks)
  have "foldl addKeyed m (k # ks) p = foldl addKeyed (addKeyed m k) ks p" by simp
  also have "\<dots> =
     (if p \<in> project_id ` set ks
      then Some ((case addKeyed m k p of None \<Rightarrow> {} | Some names \<Rightarrow> names)
                 \<union> {transaction k | k. k \<in> set ks \<and> project_id k = p})
      else addKeyed m k p)"
    by (rule Cons.IH)
  also have "\<dots> =
     (if p \<in> project_id ` set (k # ks)
      then Some ((case m p of None \<Rightarrow> {} | Some names \<Rightarrow> names)
                 \<union> {transaction ka | ka. ka \<in> set (k # ks) \<and> project_id ka = p})
      else m p)"
  proof (cases "p \<in> project_id ` set ks")
    case True
    then show ?thesis
      unfolding transactions_Cons addKeyed_lookup by (simp split: option.splits)
  next
    case False
    then have none: "{transaction ka | ka. ka \<in> set ks \<and> project_id ka = p} = {}"
      by (rule transactions_empty)
    from False show ?thesis
      unfolding transactions_Cons addKeyed_lookup none by (simp split: option.splits)
  qed
  finally show ?case .
qed

lemma keyTransactionsForTeam_lookup:
  "keyTransactionsForTeam ks p =
     (if p \<in> project_id ` set ks
      then Some {transaction k | k. k \<in> set ks \<and> project_id k = p}
      else None)"
  by (simp add: keyTransactionsForTeam_def foldl_addKeyed)

lemma foldl_setTeam:
  "foldl setTeam m ds tm =
     (if filter (\<lambda>d. team d = tm) ds = [] then m tm
      else Some (keyTransactionsForTeam (keyed (last (filter (\<lambda>d. team d = tm) ds)))))"
proof (induction ds rule: rev_induct)
  case Nil
  then show ?case by simp
next
  case (snoc d ds)
  then show ?case by (simp add: setTeam_def)
qed

lemma foldl_addPage:
  "foldl addPage m ps = foldl setTeam m (concat ps)"
  by (induction ps arbitrary: m) (simp_all add: addPage_def)

subsection \<open>Paging through the key transactions\<close>

lemma hasMore_iff:
  "hasMore parse x =
     (\<exists>links rel. pageLinks x = Some links \<and> links \<noteq> [] \<and>
        next_relation (parse links) = Some rel \<and> results rel = Some True)"
  by (auto simp: hasMore_def truthy_def split: option.splits)

lemma nextCursor_next:
  "pageLinks x = Some links \<Longrightarrow> links \<noteq> [] \<Longrightarrow> next_relation (parse links) = Some rel \<Longrightarrow>
   nextCursor parse x c = cursor rel"
  by (simp add: nextCursor_def truthy_def)

lemma length_cursors: "length (cursors parse c pages) = length pages"
  by (induction pages arbitrary: c) simp_all

lemma cursors_nth_Suc:
  "Suc i < length pages \<Longrightarrow>
   cursors parse c pages ! Suc i = nextCursor parse (snd (pages ! i)) (cursors parse c pages ! i)"
proof (induction pages arbitrary: c i)
  case Nil
  then show ?case by simp
next
  case (Cons p ps)
  show ?case
  proof (cases i)
    case 0
    with Cons.prems obtain q qs where "ps = q # qs" by (cases ps) auto
    with 0 show ?thesis by simp
  next
    case (Suc j)
    with Cons.prems have "Suc j < length ps" by simp
    from Cons.IH [OF this] Suc show ?thesis by simp
  qed
qed

lemma cursors_hd: "pages \<noteq> [] \<Longrightarrow> cursors parse c pages ! 0 = c"
  by (cases pages) simp_all

text \<open>
  Claim C2.  Let the server answer the requests with the responses \<open>pages\<close>, one after
  the other, where every response but the last has a \<open>Link\<close> header whose next relation
  has \<open>results\<close> true, and the last has no such header or relation.  Then the fetch
  returns: it has issued exactly one request per response, in order, the first with an
  undefined cursor and each later one with the cursor of the next relation of the response
  before it, and no request after the last response; its result is the map accumulated
  from the data of all the responses.  That map has an entry for exactly the teams that
  occur in the data, and the entry of a team maps each project id of the last data
  element for that team to the set of the transaction names listed there for it.
\<close>

theorem fetch_pages_sequentially:
  assumes "pages \<noteq> []"
    and "serves api (requests w) (''/organizations/'' @ orgSlug @ ''/key-transactions-list/'')
           tms parse None pages"
    and "\<forall>p \<in> set (butlast pages). hasMore parse (snd p)"
    and "\<not> hasMore parse (snd (last pages))"
  shows "fetchTeamKeyTransactions t parse api orgSlug tms w =
       Some (w\<lparr>requests := requests w @
                  map (pageRequest (''/organizations/'' @ orgSlug @ ''/key-transactions-list/'') tms)
                      (cursors parse None pages)\<rparr>,
             Inr (foldl addPage Map.empty (map fst pages)))
     \<and> length (cursors parse None pages) = length pages
     \<and> cursors parse None pages ! 0 = None
     \<and> (\<forall>i. Suc i < length pages \<longrightarrow>
          (\<exists>links rel. pageLinks (snd (pages ! i)) = Some links \<and> links \<noteq> [] \<and>
             next_relation (parse links) = Some rel \<and> results rel = Some True \<and>
             cursors parse None pages ! Suc i = cursor rel))
     \<and> \<not> (\<exists>links rel. pageLinks (snd (last pages)) = Some links \<and> links \<noteq> [] \<and>
             next_relation (parse links) = Some rel \<and> results rel = Some True)
     \<and> (\<exists>w' m. fetchTeamKeyTransactions t parse api orgSlug tms w = Some (w', Inr m) \<and>
          (\<forall>tm. case m tm of
                 None \<Rightarrow> \<not> (\<exists>d \<in> set (concat (map fst pages)). team d = tm)
               | Some kt \<Rightarrow>
                   (\<exists>d \<in> set (concat (map fst pages)). team d = tm) \<and>
                   (\<forall>p. kt p =
                      (if p \<in> project_id `
                            set (keyed (last (filter (\<lambda>d. team d = tm) (concat (map fst pages)))))
                       then Some {transaction k | k.
                              k \<in> set (keyed (last (filter (\<lambda>d. team d = tm)
                                                      (concat (map fst pages)))))
                              \<and> project_id k = p}
                       else None))))"
proof (intro conjI allI impI)
  show run: "fetchTeamKeyTransactions t parse api orgSlug tms w =
       Some (w\<lparr>requests := requests w @
                  map (pageRequest (''/organizations/'' @ orgSlug @ ''/key-transactions-list/'') tms)
                      (cursors parse None pages)\<rparr>,
             Inr (foldl addPage Map.empty (map fst pages)))"
    unfolding fetchTeamKeyTransactions_def using assms by (rule fetchLoop_run)
  have "case foldl addPage Map.empty (map fst pages) tm of
          None \<Rightarrow> \<not> (\<exists>d \<in> set (concat (map fst pages)). team d = tm)
        | Some kt \<Rightarrow>
            (\<exists>d \<in> set (concat (map fst pages)). team d = tm) \<and>
            (\<forall>p. kt p =
               (if p \<in> project_id `
                     set (keyed (last (filter (\<lambda>d. team d = tm) (concat (map fst pages)))))
                then Some {transaction k | k.
                       k \<in> set (keyed (last (filter (\<lambda>d. team d = tm)
                                               (concat (map fst pages)))))
                       \<and> project_id k = p}
                else None))" for tm
    unfolding foldl_addPage foldl_setTeam
    by (simp add: keyTransactionsForTeam_lookup filter_empty_conv)
  with run show "\<exists>w' m. fetchTeamKeyTransactions t parse api orgSlug tms w = Some (w', Inr m) \<and>
          (\<forall>tm. case m tm of
                 None \<Rightarrow> \<not> (\<exists>d \<in> set (concat (map fst pages)). team d = tm)
               | Some kt \<Rightarrow>
                   (\<exists>d \<in> set (concat (map fst pages)). team d = tm) \<and>
                   (\<forall>p. kt p =
                      (if p \<in> project_id `
                            set (keyed (last (filter (\<lambda>d. team d = tm) (concat (map fst pages)))))
                       then Some {transaction k | k.
                              k \<in> set (keyed (last (filter (\<lambda>d. team d = tm)
                                                      (concat (map fst pages)))))
                              \<and> project_id k = p}
                       else None)))"
    by blast
  show "length (cursors parse None pages) = length pages" by (rule length_cursors)
  show "cursors parse None pages ! 0 = None" using assms(1) by (rule cursors_hd)
  show "\<not> (\<exists>links rel. pageLinks (snd (last pages)) = Some links \<and> links \<noteq> [] \<and>
             next_relation (parse links) = Some rel \<and> results rel = Some True)"
    using assms(4) hasMore_iff [of parse "snd (last pages)"] by blast
next
  fix i assume i: "Suc i < length pages"
  then have "pages ! i \<in> set (butlast pages)"
    by (metis in_set_conv_nth length_butlast less_diff_conv nth_butlast Suc_eq_plus1)
  with assms(3) have "hasMore parse (snd (pages ! i))" by blast
  then obtain links rel where l: "pageLinks (snd (pages ! i)) = Some links" "links \<noteq> []"
      "next_relation (parse links) = Some rel" "results rel = Some True"
    unfolding hasMore_iff by blast
  have "cursors parse None pages ! Suc i = cursor rel"
    using cursors_nth_Suc [OF i, of parse None] l(1,2,3) by (simp add: nextCursor_next)
  with l show "\<exists>links rel. pageLinks (snd (pages ! i)) = Some links \<and> links \<noteq> [] \<and>
             next_relation (parse links) = Some rel \<and> results rel = Some True \<and>
             cursors parse None pages ! Suc i = cursor rel" by blast
qed


theorem fetch_pages_sequentially_witness:
  "fetchTeamKeyTransactions (\<lambda>s. s) sampleParseLinkHeader sampleApi ''acme'' (Strs [''1'', ''2''])
     sampleWorld =
   Some (\<lparr>requests =
            [pageRequest ''/organizations/acme/key-transactions-list/'' (Strs [''1'', ''2'']) None,
             pageRequest ''/organizations/acme/key-transactions-list/'' (Strs [''1'', ''2''])
               (Some ''0:100:0'')],
          indicators = []\<rparr>,
         Inr (addPage (addPage Map.empty (fst samplePage1)) (fst samplePage2)))
   \<and> (\<exists>w' m kt1 kt2.
         fetchTeamKeyTransactions (\<lambda>s. s) sampleParseLinkHeader sampleApi ''acme''
           (Strs [''1'', ''2'']) sampleWorld = Some (w', Inr m)
         \<and> m ''1'' = Some kt1 \<and> kt1 ''10'' = None \<and> kt1 ''20'' = Some {''/login''}
         \<and> m ''2'' = Some kt2 \<and> kt2 ''10'' = None \<and> kt2 ''20'' = None
         \<and> m ''3'' = None)"
proof -
  have h1: "[samplePage1, samplePage2] \<noteq> []" by simp
  have h2: "serves sampleApi (requests sampleWorld)
              (''/organizations/'' @ ''acme'' @ ''/key-transactions-list/'') (Strs [''1'', ''2''])
              sampleParseLinkHeader None [samplePage1, samplePage2]"
    by (simp add: sampleApi_def sampleWorld_def samplePage1_def samplePage2_def
          sampleParseLinkHeader_def pageRequest_def nextCursor_def pageLinks_def truthy_def)
  have h3: "\<forall>p \<in> set (butlast [samplePage1, samplePage2]). hasMore sampleParseLinkHeader (snd p)"
    by (simp add: samplePage1_def sampleParseLinkHeader_def hasMore_def pageLinks_def truthy_def)
  have h4: "\<not> hasMore sampleParseLinkHeader (snd (last [samplePage1, samplePage2]))"
    by (simp add: samplePage2_def sampleParseLinkHeader_def hasMore_def pageLinks_def truthy_def)
  note concl = fetch_pages_sequentially [OF h1 h2 h3 h4, of "\<lambda>s. s"]
  from concl have run: "fetchTeamKeyTransactions (\<lambda>s. s) sampleParseLinkHeader sampleApi ''acme''
       (Strs [''1'', ''2'']) sampleWorld =
     Some (\<lparr>requests =
            [pageRequest ''/organizations/acme/key-transactions-list/'' (Strs [''1'', ''2'']) None,
             pageRequest ''/organizations/acme/key-transactions-list/'' (Strs [''1'', ''2''])
               (Some ''0:100:0'')],
          indicators = []\<rparr>,
         Inr (addPage (addPage Map.empty (fst samplePage1)) (fst samplePage2)))"
    by (simp add: sampleWorld_def samplePage1_def sampleParseLinkHeader_def nextCursor_def
          pageLinks_def truthy_def)
  from concl obtain w' m where
    ret: "fetchTeamKeyTransactions (\<lambda>s. s) sampleParseLinkHeader sampleApi ''acme''
            (Strs [''1'', ''2'']) sampleWorld = Some (w', Inr m)"
    and content: "\<And>tm. case m tm of
          None \<Rightarrow> \<not> (\<exists>d \<in> set (concat (map fst [samplePage1, samplePage2])). team d = tm)
        | Some kt \<Rightarrow>
            (\<exists>d \<in> set (concat (map fst [samplePage1, samplePage2])). team d = tm) \<and>
            (\<forall>p. kt p =
               (if p \<in> project_id `
                     set (keyed (last (filter (\<lambda>d. team d = tm)
                                         (concat (map fst [samplePage1, samplePage2])))))
                then Some {transaction k | k.
                       k \<in> set (keyed (last (filter (\<lambda>d. team d = tm)
                                               (concat (map fst [samplePage1, samplePage2])))))
                       \<and> project_id k = p}
                else None))"
    by blast
  from content [of "''1''"] obtain kt1 where
    "m ''1'' = Some kt1" "kt1 ''10'' = None" "kt1 ''20'' = Some {''/login''}"
    by (auto simp: samplePage1_def samplePage2_def split: option.splits)
  moreover from content [of "''2''"] obtain kt2 where
    "m ''2'' = Some kt2" "kt2 ''10'' = None" "kt2 ''20'' = None"
    by (auto simp: samplePage1_def samplePage2_def split: option.splits)
  moreover from content [of "''3''"] have "m ''3'' = None"
    by (auto simp: samplePage1_def samplePage2_def split: option.splits)
  ultimately show ?thesis using run ret by blast
qed

subsection \<open>Failed requests\<close>

text \<open>
  Claim C1.  Whichever request of the fetch fails (the first, or one that follows any
  number of pages that asked for more), the fetch returns the rejection of that request
  to its caller, and has called \<open>addErrorMessage\<close> once: with the \<open>detail\<close> of the
  response when there is one, and with the translated text
  \<open>Error fetching team key transactions\<close> otherwise.
\<close>

theorem fetch_failure_surfaced:
  assumes "serves api (requests w) (''/organizations/'' @ orgSlug @ ''/key-transactions-list/'')
             tms parse None pages"
    and "\<forall>p \<in> set pages. hasMore parse (snd p)"
    and "api (requests w @
              map (pageRequest (''/organizations/'' @ orgSlug @ ''/key-transactions-list/'') tms)
                  (cursors parse None pages) @
              [pageRequest (''/organizations/'' @ orgSlug @ ''/key-transactions-list/'') tms
                  (cursorAfter parse None pages)]) = Inl err"
  shows "\<exists>w'. fetchTeamKeyTransactions t parse api orgSlug tms w = Some (w', Inl err) \<and>
           indicators w' = indicators w @
             [AddErrorMessage
                (case responseJSON err of
                   None \<Rightarrow> t ''Error fetching team key transactions''
                 | Some json \<Rightarrow>
                     (case detail json of
                        None \<Rightarrow> t ''Error fetching team key transactions''
                      | Some d \<Rightarrow> d))]"
  unfolding fetchTeamKeyTransactions_def fetchLoop_run_fail [OF assms]
  by (simp add: fetchErrorMessage_def)

theorem fetch_failure_surfaced_witness:
  "\<exists>w'. fetchTeamKeyTransactions (\<lambda>s. s) sampleParseLinkHeader sampleFailingApi ''acme''
            (Strs [''1'', ''2'']) sampleWorld = Some (w', Inl sampleNotFound) \<and>
         indicators w' = [AddErrorMessage ''Not found'']"
  using fetch_failure_surfaced [of sampleFailingApi sampleWorld "''acme''" "Strs [''1'', ''2'']"
      sampleParseLinkHeader "[samplePage1]" sampleNotFound "\<lambda>s. s"]
  by (simp add: sampleFailingApi_def sampleWorld_def samplePage1_def 
        sampleParseLinkHeader_def pageRequest_def hasMore_def nextCursor_def pageLinks_def
        truthy_def sampleNotFound_def)

text \<open>
  Claim C3.  A failed request is not retried.  When a request of the fetch fails, the
  requests issued are those of the pages before it and the failed one, nothing after it,
  and the fetch rejects with that error.  \<open>toggleKeyTransaction\<close> issues exactly one
  request whatever its outcome; when it fails, the promise returned is rejected with the
  same value and the only calls to the indicators are the loading message made before the
  request and one error message.
\<close>

theorem failed_request_never_retried:
  assumes "serves api (requests w) (''/organizations/'' @ orgSlug @ ''/key-transactions-list/'')
             tms parse None pages"
    and "\<forall>p \<in> set pages. hasMore parse (snd p)"
    and "api (requests w @
              map (pageRequest (''/organizations/'' @ orgSlug @ ''/key-transactions-list/'') tms)
                  (cursors parse None pages) @
              [pageRequest (''/organizations/'' @ orgSlug @ ''/key-transactions-list/'') tms
                  (cursorAfter parse None pages)]) = Inl err"
  shows "(\<exists>w'. fetchTeamKeyTransactions t parse api orgSlug tms w = Some (w', Inl err) \<and>
            requests w' = requests w @
              map (pageRequest (''/organizations/'' @ orgSlug @ ''/key-transactions-list/'') tms)
                  (cursors parse None pages) @
              [pageRequest (''/organizations/'' @ orgSlug @ ''/key-transactions-list/'') tms
                  (cursorAfter parse None pages)] \<and>
            length (requests w') = length (requests w) + length pages + 1)
     \<and> requests (fst (toggleKeyTransaction t api2 isKeyTransaction orgId projects txName teamIds w2))
         = requests w2 @ [toggleRequest isKeyTransaction orgId projects txName teamIds]
     \<and> (api2 (requests w2 @ [toggleRequest isKeyTransaction orgId projects txName teamIds]) = Inl err2
          \<longrightarrow> snd (toggleKeyTransaction t api2 isKeyTransaction orgId projects txName teamIds w2)
                = Inl err2
            \<and> indicators (fst (toggleKeyTransaction t api2 isKeyTransaction orgId projects txName
                 teamIds w2))
                = indicators w2 @
                   [AddLoadingMessage (t (''Saving changes'' @
                      [char_of (0xE2 :: nat), char_of (0x80 :: nat), char_of (0xA6 :: nat)])),
                    AddErrorMessage
                      (case responseJSON err2 of
                         None \<Rightarrow> t ''Unable to update key transaction''
                       | Some json \<Rightarrow>
                           (case non_field_errors json of
                              None \<Rightarrow> t ''Unable to update key transaction''
                            | Some [] \<Rightarrow> t ''Unable to update key transaction''
                            | Some (e # es) \<Rightarrow>
                                if e = [] then t ''Unable to update key transaction'' else e))])"
proof (intro conjI impI)
  show "\<exists>w'. fetchTeamKeyTransactions t parse api orgSlug tms w = Some (w', Inl err) \<and>
            requests w' = requests w @
              map (pageRequest (''/organizations/'' @ orgSlug @ ''/key-transactions-list/'') tms)
                  (cursors parse None pages) @
              [pageRequest (''/organizations/'' @ orgSlug @ ''/key-transactions-list/'') tms
                  (cursorAfter parse None pages)] \<and>
            length (requests w') = length (requests w) + length pages + 1"
    unfolding fetchTeamKeyTransactions_def fetchLoop_run_fail [OF assms]
    by (simp add: length_cursors)
  show "requests (fst (toggleKeyTransaction t api2 isKeyTransaction orgId projects txName teamIds w2))
         = requests w2 @ [toggleRequest isKeyTransaction orgId projects txName teamIds]"
    by (simp add: toggleKeyTransaction_def Let_def split: sum.splits)
next
  assume failed: "api2 (requests w2 @ [toggleRequest isKeyTransaction orgId projects txName teamIds])
      = Inl err2"
  then show "snd (toggleKeyTransaction t api2 isKeyTransaction orgId projects txName teamIds w2)
      = Inl err2"
    by (simp add: toggleKeyTransaction_def Let_def)
  from failed show "indicators (fst (toggleKeyTransaction t api2 isKeyTransaction orgId projects txName
                 teamIds w2))
                = indicators w2 @
                   [AddLoadingMessage (t (''Saving changes'' @
                      [char_of (0xE2 :: nat), char_of (0x80 :: nat), char_of (0xA6 :: nat)])),
                    AddErrorMessage
                      (case responseJSON err2 of
                         None \<Rightarrow> t ''Unable to update key transaction''
                       | Some json \<Rightarrow>
                           (case non_field_errors json of
                              None \<Rightarrow> t ''Unable to update key transaction''
                            | Some [] \<Rightarrow> t ''Unable to update key transaction''
                            | Some (e # es) \<Rightarrow>
                                if e = [] then t ''Unable to update key transaction'' else e))]"
    by (simp add: toggleKeyTransaction_def Let_def toggleErrorMessage_def truthy_def
          split: option.splits list.splits)
qed



theorem failed_request_never_retried_witness:
  "(\<exists>w'. fetchTeamKeyTransactions (\<lambda>s. s) sampleParseLinkHeader sampleFailingApi ''acme''
            (Strs [''1'', ''2'']) sampleWorld = Some (w', Inl sampleNotFound) \<and>
          requests w' =
            [pageRequest ''/organizations/acme/key-transactions-list/'' (Strs [''1'', ''2'']) None,
             pageRequest ''/organizations/acme/key-transactions-list/'' (Strs [''1'', ''2''])
               (Some ''0:100:0'')] \<and>
          length (requests w') = Suc (Suc 0))
   \<and> length (requests (fst (toggleKeyTransaction (\<lambda>s. s) (\<lambda>h. Inl sampleNotFound) False ''acme''
         [10] ''/checkout'' (Some [''1'']) sampleWorld))) = 1
   \<and> snd (toggleKeyTransaction (\<lambda>s. s) (\<lambda>h. Inl sampleNotFound) False ''acme''
         [10] ''/checkout'' (Some [''1'']) sampleWorld) = Inl sampleNotFound
   \<and> indicators (fst (toggleKeyTransaction (\<lambda>s. s) (\<lambda>h. Inl sampleNotFound) False ''acme''
         [10] ''/checkout'' (Some [''1'']) sampleWorld))
       = [AddLoadingMessage (''Saving changes'' @
            [char_of (0xE2 :: nat), char_of (0x80 :: nat), char_of (0xA6 :: nat)]),
          AddErrorMessage ''Unable to update key transaction'']"
  using failed_request_never_retried [where api = sampleFailingApi and w = sampleWorld
      and orgSlug = "''acme''" and tms = "Strs [''1'', ''2'']" and parse = sampleParseLinkHeader
      and pages = "[samplePage1]" and err = sampleNotFound and t = "\<lambda>s. s"
      and ?api2.0 = "\<lambda>h. Inl sampleNotFound" and isKeyTransaction = False and orgId = "''acme''"
      and projects = "[10]" and txName = "''/checkout''" and teamIds = "Some [''1'']"
      and ?w2.0 = sampleWorld and ?err2.0 = sampleNotFound]
  by (simp add: sampleFailingApi_def sampleWorld_def samplePage1_def
        sampleParseLinkHeader_def pageRequest_def hasMore_def nextCursor_def pageLinks_def
        truthy_def sampleNotFound_def)

subsection \<open>The entry of a team after several pages\<close>

text \<open>
  Claim C9.  In a run of the fetch over the responses \<open>pages\<close>, the entry of a team in
  the returned map is built from one element of the data alone: the last element for
  that team in the last page that has one.  The entry maps exactly the project ids of
  that element to the transaction names it lists for them; nothing of the earlier
  elements for the team is kept.  A team that no page mentions has no entry.
\<close>

theorem last_page_overwrites_team:
  assumes "pages \<noteq> []"
    and "serves api (requests w) (''/organizations/'' @ orgSlug @ ''/key-transactions-list/'')
           tms parse None pages"
    and "\<forall>p \<in> set (butlast pages). hasMore parse (snd p)"
    and "\<not> hasMore parse (snd (last pages))"
  shows "\<exists>w' m. fetchTeamKeyTransactions t parse api orgSlug tms w = Some (w', Inr m) \<and>
           (\<forall>tm. m tm =
              (if filter (\<lambda>d. team d = tm) (concat (map fst pages)) = [] then None
               else Some (keyTransactionsForTeam
                      (keyed (last (filter (\<lambda>d. team d = tm) (concat (map fst pages))))))))
         \<and> (\<forall>ks p. keyTransactionsForTeam ks p =
              (if p \<in> project_id ` set ks
               then Some {transaction k | k. k \<in> set ks \<and> project_id k = p}
               else None))"
proof -
  have "fetchTeamKeyTransactions t parse api orgSlug tms w =
       Some (w\<lparr>requests := requests w @
                  map (pageRequest (''/organizations/'' @ orgSlug @ ''/key-transactions-list/'') tms)
                      (cursors parse None pages)\<rparr>,
             Inr (foldl addPage Map.empty (map fst pages)))"
    unfolding fetchTeamKeyTransactions_def using assms by (rule fetchLoop_run)
  moreover have "foldl addPage Map.empty (map fst pages) tm =
       (if filter (\<lambda>d. team d = tm) (concat (map fst pages)) = [] then None
        else Some (keyTransactionsForTeam
               (keyed (last (filter (\<lambda>d. team d = tm) (concat (map fst pages)))))))" for tm
    unfolding foldl_addPage foldl_setTeam by simp
  ultimately show ?thesis
    using keyTransactionsForTeam_lookup by blast
qed

theorem last_page_overwrites_team_witness:
  "\<exists>w' m. fetchTeamKeyTransactions (\<lambda>s. s) sampleParseLinkHeader sampleApi ''acme''
        (Strs [''1'', ''2'']) sampleWorld = Some (w', Inr m) \<and>
      (\<exists>kt. m ''1'' = Some kt \<and> kt ''10'' = None \<and> kt ''20'' = Some {''/login''})"
proof -
  from last_page_overwrites_team [where pages = "[samplePage1, samplePage2]" and api = sampleApi
      and w = sampleWorld and orgSlug = "''acme''" and tms = "Strs [''1'', ''2'']"
      and parse = sampleParseLinkHeader and t = "\<lambda>s. s"]
  obtain w' m where run: "fetchTeamKeyTransactions (\<lambda>s. s) sampleParseLinkHeader sampleApi ''acme''
        (Strs [''1'', ''2'']) sampleWorld = Some (w', Inr m)"
    and m: "\<And>tm. m tm =
              (if filter (\<lambda>d. team d = tm) (concat (map fst [samplePage1, samplePage2])) = [] then None
               else Some (keyTransactionsForTeam
                      (keyed (last (filter (\<lambda>d. team d = tm)
                         (concat (map fst [samplePage1, samplePage2])))))))"
    and kt: "\<And>ks p. keyTransactionsForTeam ks p =
              (if p \<in> project_id ` set ks
               then Some {transaction k | k. k \<in> set ks \<and> project_id k = p}
               else None)"
    by (simp add: sampleApi_def sampleWorld_def samplePage1_def samplePage2_def
        sampleParseLinkHeader_def pageRequest_def hasMore_def nextCursor_def pageLinks_def
        truthy_def) blast
  have "m ''1'' = Some (keyTransactionsForTeam [\<lparr>project_id = ''20'', transaction = ''/login''\<rparr>])"
    by (simp add: m samplePage1_def samplePage2_def)
  moreover have "keyTransactionsForTeam [\<lparr>project_id = ''20'', transaction = ''/login''\<rparr>] ''10'' = None"
    by (simp add: kt)
  moreover have "keyTransactionsForTeam [\<lparr>project_id = ''20'', transaction = ''/login''\<rparr>] ''20''
      = Some {''/login''}"
    by (auto simp: kt)
  ultimately show ?thesis using run by simp
qed

subsection \<open>Toggling a key transaction in the provider\<close>







subsection \<open>The debounced search of the global selection header\<close>

lemma spaced_mono: "lo' \<le> lo \<Longrightarrow> spaced lo ds \<Longrightarrow> spaced lo' ds"
  by (cases ds) auto

lemma searchRun_spaced:
  "sorted (map fst events) \<Longrightarrow>
   (case pending of None \<Rightarrow> True | Some (a, called) \<Rightarrow> \<forall>e \<in> set events. called \<le> fst e) \<Longrightarrow>
   spaced (case pending of None \<Rightarrow> 0 | Some (a, called) \<Rightarrow> called + wait)
          (fst (searchRun st pending events))"
proof (induction st pending events rule: searchRun.induct)
  case (1 st)
  then show ?case by simp
next
  case (2 st q0 options called)
  then show ?case by (simp add: Let_def)
next
  case (3 st now q events)
  then have "spaced (now + wait) (fst (searchRun st (Some ((q, \<lparr>append' = False\<rparr>), now)) events))"
    by simp
  then show ?case by (simp add: spaced_mono)
next
  case (4 st q0 options called now q events)
  from "4.prems" have later: "\<forall>e \<in> set events. now \<le> fst e" and sorted: "sorted (map fst events)"
    and called: "called \<le> now"
    by auto
  show ?case
  proof (cases "called + wait \<le> now")
    case True
    with "4.IH"(1) [OF True refl] sorted later
    have "spaced (now + wait)
            (fst (searchRun (snd (searchDispatcher st q0 options))
                    (Some ((q, \<lparr>append' = False\<rparr>), now)) events))"
      by simp
    then have "spaced (called + wait + wait)
            (fst (searchRun (snd (searchDispatcher st q0 options))
                    (Some ((q, \<lparr>append' = False\<rparr>), now)) events))"
      using True spaced_mono [of "called + wait + wait" "now + wait"] by simp
    with True show ?thesis by (simp add: Let_def)
  next
    case False
    with "4.IH"(2) [OF False] sorted later
    have "spaced (now + wait) (fst (searchRun st (Some ((q, \<lparr>append' = False\<rparr>), now)) events))"
      by simp
    then have "spaced (called + wait)
                 (fst (searchRun st (Some ((q, \<lparr>append' = False\<rparr>), now)) events))"
      using called spaced_mono [of "called + wait" "now + wait"] by simp
    with False show ?thesis by simp
  qed
qed

lemma spaced_nth:
  "spaced lo ds \<Longrightarrow> Suc i < length ds \<Longrightarrow> fst (ds ! i) + wait \<le> fst (ds ! Suc i)"
proof (induction ds arbitrary: lo i)
  case Nil
  then show ?case by simp
next
  case (Cons d ds)
  show ?case
  proof (cases i)
    case 0
    with Cons.prems show ?thesis by (cases ds) auto
  next
    case (Suc j)
    with Cons.prems Cons.IH [of "fst d + wait" j] show ?thesis by simp
  qed
qed

lemma searchDispatcher_fresh:
  "searchDispatcher st q \<lparr>append' = False\<rparr> =
     ((q, \<lparr>append' = (searchQuery st = q)\<rparr>), st\<lparr>searchQuery := q\<rparr>)"
  by (simp add: searchDispatcher_def)

lemma searchRun_chained:
  "(case pending of None \<Rightarrow> True | Some (a, called) \<Rightarrow> snd a = \<lparr>append' = False\<rparr>) \<Longrightarrow>
   chained (searchQuery st) (fst (searchRun st pending events))
   \<and> searchQuery (snd (searchRun st pending events)) =
       (if fst (searchRun st pending events) = [] then searchQuery st
        else fst (snd (last (fst (searchRun st pending events)))))"
proof (induction st pending events rule: searchRun.induct)
  case (1 st)
  then show ?case by simp
next
  case (2 st q0 options called)
  then show ?case by (auto simp: Let_def searchDispatcher_fresh)
next
  case (3 st now q events)
  then show ?case by simp
next
  case (4 st q0 options called now q events)
  then have options: "options = \<lparr>append' = False\<rparr>" by simp
  show ?case
  proof (cases "called + wait \<le> now")
    case True
    from "4.IH"(1) [OF True refl] True show ?thesis
      by (auto simp: Let_def options searchDispatcher_fresh)
  next
    case False
    from "4.IH"(2) [OF False] False show ?thesis by simp
  qed
qed

lemma chained_nth:
  "chained prev ds \<Longrightarrow> i < length ds \<Longrightarrow>
   append' (snd (snd (ds ! i))) =
     (fst (snd (ds ! i)) = (if i = 0 then prev else fst (snd (ds ! (i - 1)))))"
proof (induction ds arbitrary: prev i)
  case Nil
  then show ?case by simp
next
  case (Cons d ds)
  show ?case
  proof (cases i)
    case 0
    with Cons.prems show ?thesis by simp
  next
    case (Suc j)
    with Cons.prems Cons.IH [of "fst (snd d)" j] show ?thesis by (cases j) simp_all
  qed
qed

lemma searchRun_from_events:
  "(case pending of None \<Rightarrow> True | Some (a, called) \<Rightarrow> P (called + wait) (fst a)) \<Longrightarrow>
   (\<forall>e \<in> set events. P (fst e + wait) (snd e)) \<Longrightarrow>
   \<forall>d \<in> set (fst (searchRun st pending events)). P (fst d) (fst (snd d))"
proof (induction st pending events rule: searchRun.induct)
  case (1 st)
  then show ?case by simp
next
  case (2 st q0 options called)
  then show ?case by (simp add: Let_def searchDispatcher_def)
next
  case (3 st now q events)
  then show ?case by simp
next
  case (4 st q0 options called now q events)
  show ?case
  proof (cases "called + wait \<le> now")
    case True
    from "4.IH"(1) [OF True refl] "4.prems" True show ?thesis
      by (simp add: Let_def searchDispatcher_def)
  next
    case False
    from "4.IH"(2) [OF False] "4.prems" False show ?thesis by simp
  qed
qed

text \<open>
  Claim C6.  For input events in the order of their times, two dispatches of the search
  are at least 200 ms apart, and each dispatch comes 200 ms after an input event and
  carries the text of that event.  A dispatch has \<open>append\<close> true exactly when its query
  equals the \<open>searchQuery\<close> stored at that moment (the initial one, or the query of the
  dispatch before it) and false otherwise; after each dispatch the stored \<open>searchQuery\<close>
  is the dispatched query.
\<close>

theorem debounced_search_dispatch:
  assumes "sorted (map fst events)"
  shows "(\<forall>i. Suc i < length (fst (searchRun st None events)) \<longrightarrow>
            fst (fst (searchRun st None events) ! i) + 200
              \<le> fst (fst (searchRun st None events) ! Suc i))
     \<and> (\<forall>d \<in> set (fst (searchRun st None events)).
            \<exists>e \<in> set events. fst d = fst e + 200 \<and> fst (snd d) = snd e)
     \<and> (\<forall>i < length (fst (searchRun st None events)).
            append' (snd (snd (fst (searchRun st None events) ! i))) =
              (fst (snd (fst (searchRun st None events) ! i)) =
                 (if i = 0 then searchQuery st
                  else fst (snd (fst (searchRun st None events) ! (i - 1))))))
     \<and> searchQuery (snd (searchRun st None events)) =
         (if fst (searchRun st None events) = [] then searchQuery st
          else fst (snd (last (fst (searchRun st None events)))))
     \<and> searchDispatcher st q \<lparr>append' = False\<rparr> =
         ((q, \<lparr>append' = (searchQuery st = q)\<rparr>), st\<lparr>searchQuery := q\<rparr>)"
proof (intro conjI allI impI ballI)
  have sp: "spaced 0 (fst (searchRun st None events))"
    using searchRun_spaced [OF assms, of None st] by simp
  fix i assume "Suc i < length (fst (searchRun st None events))"
  from spaced_nth [OF sp this]
  show "fst (fst (searchRun st None events) ! i) + 200 \<le> fst (fst (searchRun st None events) ! Suc i)"
    by (simp add: wait_def)
next
  fix d assume "d \<in> set (fst (searchRun st None events))"
  with searchRun_from_events [where pending = None and events = events and st = st
      and P = "\<lambda>time q. \<exists>e \<in> set events. time = fst e + 200 \<and> q = snd e"]
  show "\<exists>e \<in> set events. fst d = fst e + 200 \<and> fst (snd d) = snd e"
    by (auto simp: wait_def)
next
  have ch: "chained (searchQuery st) (fst (searchRun st None events))"
    using searchRun_chained [of None st events] by simp
  fix i assume "i < length (fst (searchRun st None events))"
  from chained_nth [OF ch this]
  show "append' (snd (snd (fst (searchRun st None events) ! i))) =
              (fst (snd (fst (searchRun st None events) ! i)) =
                 (if i = 0 then searchQuery st
                  else fst (snd (fst (searchRun st None events) ! (i - 1)))))" .
next
  show "searchQuery (snd (searchRun st None events)) =
         (if fst (searchRun st None events) = [] then searchQuery st
          else fst (snd (last (fst (searchRun st None events)))))"
    using searchRun_chained [of None st events] by simp
  show "searchDispatcher st q \<lparr>append' = False\<rparr> =
         ((q, \<lparr>append' = (searchQuery st = q)\<rparr>), st\<lparr>searchQuery := q\<rparr>)"
    by (rule searchDispatcher_fresh)
qed

theorem debounced_search_dispatch_witness:
  "fst (searchRun \<lparr>header_projects = None, header_environments = None, searchQuery = ''''\<rparr> None
         [(0, ''a''), (50, ''ab''), (120, ''a''), (400, ''''), (450, ''a''), (1000, ''ab'')])
     = [(320, ''a'', \<lparr>append' = False\<rparr>), (650, ''a'', \<lparr>append' = True\<rparr>),
        (1200, ''ab'', \<lparr>append' = False\<rparr>)]
   \<and> searchQuery (snd (searchRun
         \<lparr>header_projects = None, header_environments = None, searchQuery = ''''\<rparr> None
         [(0, ''a''), (50, ''ab''), (120, ''a''), (400, ''''), (450, ''a''), (1000, ''ab'')]))
     = ''ab''"
  using debounced_search_dispatch [of
      "[(0, ''a''), (50, ''ab''), (120, ''a''), (400, ''''), (450, ''a''), (1000, ''ab'')]"
      "\<lparr>header_projects = None, header_environments = None, searchQuery = ''''\<rparr>" "''a''"]
  by (simp add: wait_def searchDispatcher_def Let_def)

end
